theory Spec2Isabelle
  imports Main "HOL-Library.Sublist" "HOL-Library.AList"
begin

section \<open>The storage engine as the plugin sees it\<close>

text \<open>
  The plugin of \<^verbatim>\<open>src/index.ts\<close> is glue between a host server and a key-value
  engine. The engine's lifecycle calls (\<^verbatim>\<open>createStorage\<close>, \<^verbatim>\<open>unwatch\<close>,
  \<^verbatim>\<open>getMounts\<close>, \<^verbatim>\<open>unmount\<close>, \<^verbatim>\<open>dispose\<close>) are calls out of the
  repository: each of them may return or throw, and the plugin's control flow is what decides
  which of them are made. They are modelled as calls with a given outcome that are recorded,
  in order, in a log.
\<close>

datatype error = Error string

text \<open>
  A \<^verbatim>\<open>Storage\<close> object: which store it reads and writes, and the prefix it puts in
  front of every key (empty for the handle that \<^verbatim>\<open>createStorage\<close> returns).
\<close>

record storage =
  store_id :: nat
  key_prefix :: string

text \<open>An entry of \<^verbatim>\<open>getMounts\<close>: \<^verbatim>\<open>{ base, driver }\<close>.\<close>

record mount =
  base :: string
  driver :: string

text \<open>
  \<^verbatim>\<open>FastifyStoragelyOptions\<close>: the engine's own options and the optional
  \<^verbatim>\<open>close\<close> callback. A callback is represented by what a call of it does: it
  returns (or resolves), or it throws (or rejects) with an error.
\<close>

record 'd FastifyStoragelyOptions =
  create_options :: 'd
  close :: "(error + unit) option"

text \<open>The outcomes of the engine's lifecycle calls.\<close>

record 'd unstorage =
  createStorage_outcome :: "'d FastifyStoragelyOptions \<Rightarrow> error + storage"
  unwatch_outcome :: "storage \<Rightarrow> error + unit"
  getMounts_outcome :: "storage \<Rightarrow> string \<Rightarrow> error + mount list"
  unmount_outcome :: "storage \<Rightarrow> string \<Rightarrow> bool \<Rightarrow> error + unit"
  dispose_outcome :: "storage \<Rightarrow> error + unit"

datatype event =
    CloseCallback
  | Unwatch storage
  | GetMounts storage string
  | Unmount storage string bool
  | Dispose storage

text \<open>
  An awaited computation: it extends the log of calls made so far and either yields a value
  or throws.
\<close>

type_synonym 'a action = "event list \<Rightarrow> (error + 'a) \<times> event list"

definition return_action :: "'a \<Rightarrow> 'a action" where
  "return_action x = (\<lambda>log. (Inr x, log))"

definition call :: "event \<Rightarrow> error + 'a \<Rightarrow> 'a action" where
  "call ev outcome = (\<lambda>log. (outcome, log @ [ev]))"

text \<open>Sequencing of two awaited statements: a throw of the first skips the second.\<close>

definition and_then :: "'a action \<Rightarrow> ('a \<Rightarrow> 'b action) \<Rightarrow> 'b action" where
  "and_then m f = (\<lambda>log. case m log of
      (Inl e, log') \<Rightarrow> (Inl e, log')
    | (Inr x, log') \<Rightarrow> f x log')"

text \<open>
  \<^verbatim>\<open>try { body } finally { fin }\<close>: the finaliser runs whatever the body did. When
  the finaliser completes, the completion of the body stands (its value or its error); when
  the finaliser throws, that error replaces the completion of the body.
\<close>

definition try_finally :: "'a action \<Rightarrow> unit action \<Rightarrow> 'a action" where
  "try_finally body fin = (\<lambda>log. case body log of
      (r, log') \<Rightarrow> (case fin log' of
          (Inl e, log'') \<Rightarrow> (Inl e, log'')
        | (Inr _, log'') \<Rightarrow> (r, log'')))"

text \<open>\<^verbatim>\<open>for (const x of xs) { await f(x) }\<close>\<close>

fun for_of :: "'a list \<Rightarrow> ('a \<Rightarrow> unit action) \<Rightarrow> unit action" where
  "for_of [] f = return_action ()"
| "for_of (x # xs) f = and_then (f x) (\<lambda>_. for_of xs f)"

definition unwatch :: "'d unstorage \<Rightarrow> storage \<Rightarrow> unit action" where
  "unwatch eng s = call (Unwatch s) (unwatch_outcome eng s)"

definition getMounts :: "'d unstorage \<Rightarrow> storage \<Rightarrow> string \<Rightarrow> mount list action" where
  "getMounts eng s b = call (GetMounts s b) (getMounts_outcome eng s b)"

definition unmount :: "'d unstorage \<Rightarrow> storage \<Rightarrow> string \<Rightarrow> bool \<Rightarrow> unit action" where
  "unmount eng s b dispose_driver = call (Unmount s b dispose_driver) (unmount_outcome eng s b dispose_driver)"

definition dispose :: "'d unstorage \<Rightarrow> storage \<Rightarrow> unit action" where
  "dispose eng s = call (Dispose s) (dispose_outcome eng s)"

section \<open>The shutdown hook\<close>

text \<open>
  \<^verbatim>\<open>await opts.close?.()\<close>: nothing is called when the option is absent.
\<close>

definition call_close :: "'d FastifyStoragelyOptions \<Rightarrow> unit action" where
  "call_close opts = (case close opts of
      None \<Rightarrow> return_action ()
    | Some outcome \<Rightarrow> call CloseCallback outcome)"

text \<open>
  The body of the \<^verbatim>\<open>onClose\<close> hook (lines 115 to 128):
  \<^verbatim>\<open>
  try { await opts.close?.(); }
  finally {
    await storagely.unwatch();
    const mounts = storagely.getMounts('');
    for (const { base } of mounts) { await storagely.unmount(base, true); }
    await storagely.dispose();
  }
  \<close>
\<close>

definition onClose :: "'d unstorage \<Rightarrow> 'd FastifyStoragelyOptions \<Rightarrow> storage \<Rightarrow> unit action" where
  "onClose eng opts storagely =
     try_finally (call_close opts)
       (and_then (unwatch eng storagely) (\<lambda>_.
        and_then (getMounts eng storagely '''') (\<lambda>mounts.
        and_then (for_of mounts (\<lambda>m. unmount eng storagely (base m) True)) (\<lambda>_.
        dispose eng storagely))))"

section \<open>Keys and values\<close>

text \<open>
  What a read or a write of a key does is decided inside the engine, which is a dependency
  and not part of \<^verbatim>\<open>src/\<close>. The definitions of this section follow the
  specification's description of the engine; the plugin's own functions, further down, are
  translated from the source and call them.
\<close>

text \<open>The contents of every store: for each store, its entries.\<close>

type_synonym 'v world = "nat \<Rightarrow> (string \<times> 'v) list"

text \<open>A snapshot: a mapping from local key names to values.\<close>

type_synonym 'v Snapshot = "(string \<times> 'v) list"

text \<open>
  Modelled from the spec: the engine's \<^verbatim>\<open>getItem\<close> is missing from the source
  files. It reads the entry of a key; a storage object puts its prefix in front of the key.
\<close>

definition getItem :: "storage \<Rightarrow> string \<Rightarrow> 'v world \<Rightarrow> 'v option" where
  "getItem s k w = map_of (w (store_id s)) (key_prefix s @ k)"

text \<open>
  Modelled from the spec: the engine's \<^verbatim>\<open>setItem\<close> is missing from the source
  files. It writes the entry of a key, replacing the value the key had.
\<close>

definition setItem :: "storage \<Rightarrow> string \<Rightarrow> 'v \<Rightarrow> 'v world \<Rightarrow> 'v world" where
  "setItem s k v w = w(store_id s := AList.update (key_prefix s @ k) v (w (store_id s)))"

text \<open>
  Modelled from the spec: the engine's \<^verbatim>\<open>getKeys\<close> is missing from the source
  files. It lists the keys under a base, as the storage object names them (its own prefix
  stripped).
\<close>

definition getKeys :: "storage \<Rightarrow> string \<Rightarrow> 'v world \<Rightarrow> string list" where
  "getKeys s b w =
     map (drop (length (key_prefix s)))
       (filter (prefix (key_prefix s @ b)) (remdups (map fst (w (store_id s)))))"

text \<open>
  Modelled from the spec: the engine's \<^verbatim>\<open>prefixStorage\<close> is missing from the
  source files. "A logical, stateless projection of the storage handle that transparently
  adds/strips a fixed string prefix on every key. Not a separate storage instance."
\<close>

definition prefixStorage :: "storage \<Rightarrow> string \<Rightarrow> storage" where
  "prefixStorage s p = s\<lparr>key_prefix := key_prefix s @ p\<rparr>"

text \<open>
  Modelled from the spec: the engine's \<^verbatim>\<open>snapshot\<close> is missing from the source
  files. It "enumerates every key under base and returns a mapping from the key's local name
  (base stripped) to its current value".
\<close>

definition snapshot :: "storage \<Rightarrow> string \<Rightarrow> 'v world \<Rightarrow> 'v Snapshot" where
  "snapshot s b w =
     List.map_filter (\<lambda>k. map_option (\<lambda>v. (drop (length b) k, v)) (getItem s k w))
       (getKeys s b w)"

text \<open>
  Modelled from the spec: the engine's \<^verbatim>\<open>restoreSnapshot\<close> is missing from the
  source files. It "writes every key in snapshot back under base" and "does not delete keys
  absent from the snapshot". An omitted base is the root of the whole store.
\<close>

definition restoreSnapshot :: "storage \<Rightarrow> 'v Snapshot \<Rightarrow> string option \<Rightarrow> 'v world \<Rightarrow> 'v world" where
  "restoreSnapshot s snap b w =
     fold (\<lambda>(k, v). setItem s ((case b of None \<Rightarrow> [] | Some b' \<Rightarrow> b') @ k) v) snap w"

section \<open>The plugin's factories\<close>

text \<open>
  \<^verbatim>\<open>createPrefixedStoragely\<close> (lines 65 to 69) returns
  \<^verbatim>\<open>(prefix) => prefixStorage(storage, prefix)\<close>.
\<close>

definition createPrefixedStoragely :: "storage \<Rightarrow> string \<Rightarrow> storage" where
  "createPrefixedStoragely s = (\<lambda>p. prefixStorage s p)"

text \<open>
  \<^verbatim>\<open>StoragelySnapshotReturn\<close>: a function that takes a snapshot, with a
  \<^verbatim>\<open>restore\<close> method attached to it.
\<close>

record 'v StoragelySnapshotReturn =
  invoke :: "string \<Rightarrow> 'v world \<Rightarrow> 'v Snapshot"
  restore :: "'v Snapshot \<Rightarrow> string option \<Rightarrow> 'v world \<Rightarrow> 'v world"

text \<open>
  \<^verbatim>\<open>createSnapshotedStoragely\<close> (lines 77 to 81):
  \<^verbatim>\<open>
  const fn = (base) => snapshot(storage, base);
  fn.restore = (snapshot, base?) => restoreSnapshot(storage, snapshot, base);
  \<close>
\<close>

definition createSnapshotedStoragely :: "storage \<Rightarrow> 'v StoragelySnapshotReturn" where
  "createSnapshotedStoragely s =
     \<lparr> invoke = (\<lambda>b. snapshot s b),
       restore = (\<lambda>snap b. restoreSnapshot s snap b) \<rparr>"

section \<open>Registration\<close>

text \<open>
  What a decoration holds: the storage handle, the prefix factory or the snapshot tool. A
  decoration is either a plain value or a getter that yields the value on each access.
\<close>

datatype 'v decorated =
    StorageValue storage
  | PrefixFactory "string \<Rightarrow> storage"
  | SnapshotTool "'v StoragelySnapshotReturn"

datatype 'v decoration =
    Getter "unit \<Rightarrow> 'v decorated"
  | Plain "'v decorated"

text \<open>
  The host server, as far as the plugin touches it: the decorations of the instance, the
  decorations every request carries, and the hooks registered so far.
\<close>

record 'v fastify =
  decorators :: "string \<rightharpoonup> 'v decoration"
  request_decorators :: "string \<rightharpoonup> 'v decoration"
  hooks :: "(string \<times> unit action) list"

definition decorate :: "string \<Rightarrow> 'v decoration \<Rightarrow> 'v fastify \<Rightarrow> 'v fastify" where
  "decorate name d f = f\<lparr>decorators := (decorators f)(name \<mapsto> d)\<rparr>"

definition decorateRequest :: "string \<Rightarrow> 'v decoration \<Rightarrow> 'v fastify \<Rightarrow> 'v fastify" where
  "decorateRequest name d f = f\<lparr>request_decorators := (request_decorators f)(name \<mapsto> d)\<rparr>"

definition addHook :: "string \<Rightarrow> unit action \<Rightarrow> 'v fastify \<Rightarrow> 'v fastify" where
  "addHook name h f = f\<lparr>hooks := hooks f @ [(name, h)]\<rparr>"

definition createStorage :: "'d unstorage \<Rightarrow> 'd FastifyStoragelyOptions \<Rightarrow> error + storage" where
  "createStorage eng opts = createStorage_outcome eng opts"

text \<open>
  The plugin function (lines 97 to 131). \<^verbatim>\<open>createStorage(opts)\<close> is its first
  statement: when it throws, the function is left at once. Otherwise the six decorations and
  the hook are added and \<^verbatim>\<open>done()\<close> is called, which is the result \<open>Inr ()\<close>.
\<close>

definition plugin :: "'d unstorage \<Rightarrow> 'v fastify \<Rightarrow> 'd FastifyStoragelyOptions \<Rightarrow> (error + unit) \<times> 'v fastify" where
  "plugin eng fastify opts =
     (case createStorage eng opts of
        Inl e \<Rightarrow> (Inl e, fastify)
      | Inr storagely \<Rightarrow>
          (let f1 = decorate ''storagely'' (Getter (\<lambda>_. StorageValue storagely)) fastify;
               f2 = decorateRequest ''storagely'' (Getter (\<lambda>_. StorageValue storagely)) f1;
               storagelyPrefix = createPrefixedStoragely storagely;
               f3 = decorate ''storagelyPrefix'' (Plain (PrefixFactory storagelyPrefix)) f2;
               f4 = decorateRequest ''storagelyPrefix'' (Plain (PrefixFactory storagelyPrefix)) f3;
               storagelySnapshot = createSnapshotedStoragely storagely;
               f5 = decorate ''storagelySnapshot'' (Plain (SnapshotTool storagelySnapshot)) f4;
               f6 = decorateRequest ''storagelySnapshot'' (Plain (SnapshotTool storagelySnapshot)) f5;
               f7 = addHook ''onClose'' (onClose eng opts storagely) f6
           in (Inr (), f7)))"

text \<open>Reading a decoration: a getter is called, a plain value is returned as it is.\<close>

fun resolve :: "'v decoration \<Rightarrow> 'v decorated" where
  "resolve (Getter g) = g ()"
| "resolve (Plain v) = v"

definition instance_get :: "'v fastify \<Rightarrow> string \<Rightarrow> 'v decorated option" where
  "instance_get f name = map_option resolve (decorators f name)"

text \<open>A request object carries the request-level decorations of the server it belongs to.\<close>

record 'v request =
  request_id :: nat
  properties :: "string \<rightharpoonup> 'v decoration"

definition new_request :: "'v fastify \<Rightarrow> nat \<Rightarrow> 'v request" where
  "new_request f n = \<lparr> request_id = n, properties = request_decorators f \<rparr>"

definition request_get :: "'v request \<Rightarrow> string \<Rightarrow> 'v decorated option" where
  "request_get r name = map_option resolve (properties r name)"

section \<open>The specified shutdown sequence and concrete runs\<close>

text \<open>
  The four steps of the specification's shutdown transition, as the list of calls they make:
  the close callback when one was supplied, the stop of the watchers, the enumeration of the
  mounts at the root followed by one unmount per mount with disposal of its driver
  requested, and the disposal of the handle. This definition follows the specification's
  words; \<open>onClose\<close> above follows the source.
\<close>

definition shutdown_steps :: "'d FastifyStoragelyOptions \<Rightarrow> storage \<Rightarrow> mount list \<Rightarrow> event list" where
  "shutdown_steps opts s ms =
     (case close opts of None \<Rightarrow> [] | Some _ \<Rightarrow> [CloseCallback])
     @ [Unwatch s]
     @ GetMounts s [] # map (\<lambda>m. Unmount s (base m) True) ms
     @ [Dispose s]"

definition example_storage :: storage where
  "example_storage = \<lparr> store_id = 0, key_prefix = [] \<rparr>"

definition example_mounts :: "mount list" where
  "example_mounts = [\<lparr> base = [], driver = ''memory'' \<rparr>, \<lparr> base = ''cache:'', driver = ''memory'' \<rparr>]"

text \<open>An engine on which every lifecycle call succeeds, with two mounts.\<close>

definition healthy_engine :: "unit unstorage" where
  "healthy_engine =
     \<lparr> createStorage_outcome = (\<lambda>_. Inr example_storage),
       unwatch_outcome = (\<lambda>_. Inr ()),
       getMounts_outcome = (\<lambda>_ _. Inr example_mounts),
       unmount_outcome = (\<lambda>_ _ _. Inr ()),
       dispose_outcome = (\<lambda>_. Inr ()) \<rparr>"

text \<open>The same engine with a failing \<^verbatim>\<open>unwatch\<close>.\<close>

definition unwatch_failing_engine :: "unit unstorage" where
  "unwatch_failing_engine =
     healthy_engine\<lparr> unwatch_outcome := (\<lambda>_. Inl (Error ''unwatch failed'')) \<rparr>"

text \<open>The same engine where the unmount of the second mount fails.\<close>

definition unmount_failing_engine :: "unit unstorage" where
  "unmount_failing_engine =
     healthy_engine\<lparr> unmount_outcome :=
       (\<lambda>_ b _. if b = ''cache:'' then Inl (Error ''unmount failed'') else Inr ()) \<rparr>"

text \<open>An engine that refuses the configuration.\<close>

definition refusing_engine :: "unit unstorage" where
  "refusing_engine =
     healthy_engine\<lparr> createStorage_outcome := (\<lambda>_. Inl (Error ''invalid driver'')) \<rparr>"

definition options_without_close :: "unit FastifyStoragelyOptions" where
  "options_without_close = \<lparr> create_options = (), close = None \<rparr>"

definition options_close_ok :: "unit FastifyStoragelyOptions" where
  "options_close_ok = \<lparr> create_options = (), close = Some (Inr ()) \<rparr>"

definition options_close_throws :: "unit FastifyStoragelyOptions" where
  "options_close_throws = \<lparr> create_options = (), close = Some (Inl (Error ''close failed'')) \<rparr>"

definition empty_fastify :: "'v fastify" where
  "empty_fastify = \<lparr> decorators = Map.empty, request_decorators = Map.empty, hooks = [] \<rparr>"

text \<open>A store holding one entry, \<^verbatim>\<open>foo = bar\<close>, in store 0.\<close>

definition example_world :: "string world" where
  "example_world = (\<lambda>_. [])(0 := [(''foo'', ''bar'')])"

section \<open>Shutdown: order of the steps and failures\<close>

lemmas action_defs = return_action_def call_def and_then_def try_finally_def
lemmas engine_defs = unwatch_def getMounts_def unmount_def dispose_def

lemmas example_defs = healthy_engine_def unwatch_failing_engine_def unmount_failing_engine_def
  refusing_engine_def options_without_close_def options_close_ok_def options_close_throws_def
  example_storage_def example_mounts_def empty_fastify_def

subsection \<open>The unmount loop\<close>

lemma for_of_unmount_ok:
  "\<forall>m\<in>set ms. unmount_outcome eng s (base m) True = Inr () \<Longrightarrow>
   for_of ms (\<lambda>m. unmount eng s (base m) True) log
     = (Inr (), log @ map (\<lambda>m. Unmount s (base m) True) ms)"
  by (induction ms arbitrary: log) (simp_all add: action_defs unmount_def)

lemma for_of_unmount_log:
  "\<exists>k\<le>length ms. snd (for_of ms (\<lambda>m. unmount eng s (base m) True) log)
     = log @ map (\<lambda>m. Unmount s (base m) True) (take k ms)"
proof (induction ms arbitrary: log)
  case Nil
  show ?case by (simp add: action_defs)
next
  case (Cons m ms)
  show ?case
  proof (cases "unmount_outcome eng s (base m) True")
    case (Inl e)
    then have "snd (for_of (m # ms) (\<lambda>m. unmount eng s (base m) True) log)
        = log @ map (\<lambda>m. Unmount s (base m) True) (take 1 (m # ms))"
      by (simp add: action_defs unmount_def)
    then show ?thesis by (intro exI[of _ 1]) simp
  next
    case (Inr u)
    obtain k where k: "k \<le> length ms"
      "snd (for_of ms (\<lambda>m. unmount eng s (base m) True) (log @ [Unmount s (base m) True]))
        = (log @ [Unmount s (base m) True]) @ map (\<lambda>m. Unmount s (base m) True) (take k ms)"
      using Cons.IH by blast
    from Inr k(2) have "snd (for_of (m # ms) (\<lambda>m. unmount eng s (base m) True) log)
        = log @ map (\<lambda>m. Unmount s (base m) True) (take (Suc k) (m # ms))"
      by (simp add: action_defs unmount_def)
    with k(1) show ?thesis by (intro exI[of _ "Suc k"]) simp
  qed
qed

lemma for_of_unmount_result:
  "fst (for_of ms (\<lambda>m. unmount eng s (base m) True) log) = Inr ()
     \<longleftrightarrow> (\<forall>m\<in>set ms. unmount_outcome eng s (base m) True = Inr ())"
  by (induction ms arbitrary: log) (auto simp: action_defs unmount_def split: sum.splits)

lemma for_of_unmount_fails:
  "\<not> (\<forall>m\<in>set ms. unmount_outcome eng s (base m) True = Inr ()) \<Longrightarrow>
   \<exists>e k. k \<le> length ms \<and> for_of ms (\<lambda>m. unmount eng s (base m) True) log
     = (Inl e, log @ map (\<lambda>m. Unmount s (base m) True) (take k ms))"
proof -
  assume a: "\<not> (\<forall>m\<in>set ms. unmount_outcome eng s (base m) True = Inr ())"
  obtain e where e: "fst (for_of ms (\<lambda>m. unmount eng s (base m) True) log) = Inl e"
    using a for_of_unmount_result[of ms eng s log]
    by (cases "fst (for_of ms (\<lambda>m. unmount eng s (base m) True) log)") auto
  obtain k where k: "k \<le> length ms" "snd (for_of ms (\<lambda>m. unmount eng s (base m) True) log)
      = log @ map (\<lambda>m. Unmount s (base m) True) (take k ms)"
    using for_of_unmount_log[of ms eng s log] by blast
  from e k show ?thesis by (metis prod.collapse)
qed

subsection \<open>Runs of the hook\<close>

lemma cleanup_ok:
  assumes "unwatch_outcome eng s = Inr ()"
    and "getMounts_outcome eng s [] = Inr ms"
    and "\<forall>m\<in>set ms. unmount_outcome eng s (base m) True = Inr ()"
  shows "and_then (unwatch eng s) (\<lambda>_.
         and_then (getMounts eng s []) (\<lambda>mounts.
         and_then (for_of mounts (\<lambda>m. unmount eng s (base m) True)) (\<lambda>_.
         dispose eng s))) log
       = (dispose_outcome eng s,
          log @ [Unwatch s] @ GetMounts s [] # map (\<lambda>m. Unmount s (base m) True) ms @ [Dispose s])"
  using assms for_of_unmount_ok[OF assms(3)]
  by (simp add: action_defs unwatch_def getMounts_def dispose_def)

lemma onClose_log_when_cleanup_ok:
  assumes "unwatch_outcome eng s = Inr ()"
    and "getMounts_outcome eng s [] = Inr ms"
    and "\<forall>m\<in>set ms. unmount_outcome eng s (base m) True = Inr ()"
  shows "snd (onClose eng opts s log) = log @ shutdown_steps opts s ms"
  using cleanup_ok[OF assms]
  by (simp add: onClose_def try_finally_def call_close_def return_action_def call_def
      shutdown_steps_def split: option.splits sum.splits)

lemma onClose_result_when_cleanup_ok:
  assumes "unwatch_outcome eng s = Inr ()"
    and "getMounts_outcome eng s [] = Inr ms"
    and "\<forall>m\<in>set ms. unmount_outcome eng s (base m) True = Inr ()"
    and "dispose_outcome eng s = Inr ()"
  shows "fst (onClose eng opts s log) = (case close opts of None \<Rightarrow> Inr () | Some r \<Rightarrow> r)"
  using cleanup_ok[OF assms(1-3)] assms(4)
  by (simp add: onClose_def try_finally_def call_close_def return_action_def call_def
      split: option.splits sum.splits)

lemma onClose_unwatch_fails:
  "unwatch_outcome eng s = Inl e \<Longrightarrow>
   onClose eng opts s log
     = (Inl e, log @ (case close opts of None \<Rightarrow> [] | Some _ \<Rightarrow> [CloseCallback]) @ [Unwatch s])"
  by (simp add: onClose_def action_defs call_close_def unwatch_def split: option.splits)

lemma onClose_getMounts_fails:
  "unwatch_outcome eng s = Inr () \<Longrightarrow> getMounts_outcome eng s [] = Inl e \<Longrightarrow>
   onClose eng opts s log
     = (Inl e, log @ (case close opts of None \<Rightarrow> [] | Some _ \<Rightarrow> [CloseCallback])
                 @ [Unwatch s, GetMounts s []])"
  by (simp add: onClose_def action_defs call_close_def unwatch_def getMounts_def
      split: option.splits)

lemma onClose_unmount_fails:
  assumes "unwatch_outcome eng s = Inr ()" and "getMounts_outcome eng s [] = Inr ms"
    and "\<not> (\<forall>m\<in>set ms. unmount_outcome eng s (base m) True = Inr ())"
  shows "\<exists>e k. k \<le> length ms \<and> onClose eng opts s log
     = (Inl e, log @ (case close opts of None \<Rightarrow> [] | Some _ \<Rightarrow> [CloseCallback])
                 @ [Unwatch s, GetMounts s []]
                 @ map (\<lambda>m. Unmount s (base m) True) (take k ms))"
proof -
  define pre where "pre = log @ (case close opts of None \<Rightarrow> [] | Some _ \<Rightarrow> [CloseCallback])
    @ [Unwatch s, GetMounts s []]"
  obtain e k where ek: "k \<le> length ms" "for_of ms (\<lambda>m. unmount eng s (base m) True) pre
      = (Inl e, pre @ map (\<lambda>m. Unmount s (base m) True) (take k ms))"
    using for_of_unmount_fails[OF assms(3), of pre] by blast
  have "onClose eng opts s log = (Inl e, pre @ map (\<lambda>m. Unmount s (base m) True) (take k ms))"
    using assms(1,2) ek(2)
    by (simp add: onClose_def action_defs call_close_def unwatch_def getMounts_def pre_def
        split: option.splits)
  with ek(1) show ?thesis unfolding pre_def by auto
qed

lemma onClose_log_prefix:
  "prefix (snd (onClose eng opts s []))
     (shutdown_steps opts s (case getMounts_outcome eng s [] of Inl _ \<Rightarrow> [] | Inr ms \<Rightarrow> ms))"
proof (cases "unwatch_outcome eng s")
  case (Inl e)
  from onClose_unwatch_fails[OF this, of opts "[]"] show ?thesis
    by (simp add: shutdown_steps_def split: option.splits)
next
  case uw: (Inr u)
  show ?thesis
  proof (cases "getMounts_outcome eng s []")
    case (Inl e)
    from onClose_getMounts_fails[OF _ this, of opts "[]"] uw show ?thesis
      by (simp add: shutdown_steps_def split: option.splits)
  next
    case gm: (Inr ms)
    show ?thesis
    proof (cases "\<forall>m\<in>set ms. unmount_outcome eng s (base m) True = Inr ()")
      case True
      with uw gm show ?thesis
        using onClose_log_when_cleanup_ok[of eng s ms opts "[]"] by simp
    next
      case False
      from onClose_unmount_fails[OF _ gm False, of opts "[]"] uw
      obtain e k where run: "onClose eng opts s []
        = (Inl e, (case close opts of None \<Rightarrow> [] | Some _ \<Rightarrow> [CloseCallback])
                 @ [Unwatch s, GetMounts s []]
                 @ map (\<lambda>m. Unmount s (base m) True) (take k ms))" by auto
      have "prefix (map (\<lambda>m. Unmount s (base m) True) (take k ms))
          (map (\<lambda>m. Unmount s (base m) True) ms @ [Dispose s])"
        by (metis append_take_drop_id map_append prefixI prefix_prefix)
      with run gm show ?thesis
        by (simp add: shutdown_steps_def split: option.splits)
    qed
  qed
qed

subsection \<open>The claims about shutdown and registration failure\<close>

text \<open>
  Claim C1. The plugin registers one \<^verbatim>\<open>onClose\<close> hook, and a run of that hook
  makes its calls in the order of the four specified steps: the close callback when one was
  supplied, the stop of the watchers on the storage handle, the enumeration of the mounts at
  the root with one unmount per mount (disposal of the driver requested), and the disposal
  of the handle. The calls of every run are an initial part of that sequence, and they are
  the whole sequence whenever the stop of the watchers, the enumeration and the unmounts
  return.
\<close>
theorem onClose_steps_in_order:
  "(createStorage eng opts = Inr s \<longrightarrow>
      hooks (snd (plugin eng f opts)) = hooks f @ [(''onClose'', onClose eng opts s)])
   \<and> prefix (snd (onClose eng opts s []))
       (shutdown_steps opts s (case getMounts_outcome eng s [] of Inl _ \<Rightarrow> [] | Inr ms \<Rightarrow> ms))
   \<and> (unwatch_outcome eng s = Inr () \<and> getMounts_outcome eng s [] = Inr ms
        \<and> (\<forall>m\<in>set ms. unmount_outcome eng s (base m) True = Inr ())
      \<longrightarrow> snd (onClose eng opts s []) = shutdown_steps opts s ms)"
proof (intro conjI impI)
  assume "createStorage eng opts = Inr s"
  then show "hooks (snd (plugin eng f opts)) = hooks f @ [(''onClose'', onClose eng opts s)]"
    by (simp add: plugin_def Let_def addHook_def decorate_def decorateRequest_def)
next
  show "prefix (snd (onClose eng opts s []))
       (shutdown_steps opts s (case getMounts_outcome eng s [] of Inl _ \<Rightarrow> [] | Inr ms \<Rightarrow> ms))"
    by (rule onClose_log_prefix)
next
  assume "unwatch_outcome eng s = Inr () \<and> getMounts_outcome eng s [] = Inr ms
        \<and> (\<forall>m\<in>set ms. unmount_outcome eng s (base m) True = Inr ())"
  then show "snd (onClose eng opts s []) = shutdown_steps opts s ms"
    using onClose_log_when_cleanup_ok[of eng s ms opts "[]"] by simp
qed

text \<open>The hook registered on a fresh server, run on a healthy engine with two mounts.\<close>
theorem onClose_steps_in_order_witness:
  "hooks (snd (plugin healthy_engine (empty_fastify :: string fastify) options_close_ok))
     = [(''onClose'', onClose healthy_engine options_close_ok example_storage)]
   \<and> snd (onClose healthy_engine options_close_ok example_storage [])
     = [CloseCallback, Unwatch example_storage, GetMounts example_storage [],
        Unmount example_storage [] True, Unmount example_storage ''cache:'' True,
        Dispose example_storage]"
  using onClose_steps_in_order[of healthy_engine options_close_ok example_storage "empty_fastify :: string fastify" example_mounts]
  by (simp add: example_defs createStorage_def shutdown_steps_def)

text \<open>
  Claim C2, as amended. In every shutdown run in which the close callback throws and none of
  the cleanup steps 2 to 4 throws, the watchers are stopped, every mount is unmounted and the
  handle is disposed, and the hook then raises the callback's own error.
\<close>
theorem close_failure_raised_after_cleanup:
  assumes "close opts = Some (Inl e)"
    and "unwatch_outcome eng s = Inr ()"
    and "getMounts_outcome eng s [] = Inr ms"
    and "\<forall>m\<in>set ms. unmount_outcome eng s (base m) True = Inr ()"
    and "dispose_outcome eng s = Inr ()"
  shows "onClose eng opts s log
       = (Inl e, log @ CloseCallback # Unwatch s # GetMounts s []
                   # map (\<lambda>m. Unmount s (base m) True) ms @ [Dispose s])"
  using onClose_log_when_cleanup_ok[OF assms(2-4), of opts log]
    onClose_result_when_cleanup_ok[OF assms(2-5), of opts log] assms(1)
  by (simp add: prod_eq_iff shutdown_steps_def)

text \<open>A throwing callback on a healthy engine.\<close>
theorem close_failure_raised_after_cleanup_witness:
  "onClose healthy_engine options_close_throws example_storage []
     = (Inl (Error ''close failed''),
        [CloseCallback, Unwatch example_storage, GetMounts example_storage [],
         Unmount example_storage [] True, Unmount example_storage ''cache:'' True,
         Dispose example_storage])"
  using close_failure_raised_after_cleanup[of options_close_throws "Error ''close failed''" healthy_engine example_storage example_mounts "[]"]
  by (simp add: example_defs)

text \<open>
  Claim C2 as stated fails: here the close callback throws and the unmount of the second
  mount throws too. The handle is never disposed, and the error the hook raises is the
  unmount's, not the callback's.
\<close>
theorem close_failure_masked_by_unmount_failure:
  "close options_close_throws = Some (Inl (Error ''close failed''))
   \<and> Dispose example_storage \<notin> set (snd (onClose unmount_failing_engine options_close_throws example_storage []))
   \<and> fst (onClose unmount_failing_engine options_close_throws example_storage []) = Inl (Error ''unmount failed'')"
  by (simp add: example_defs onClose_def action_defs engine_defs call_close_def)

text \<open>
  Claim C3, as amended. A failure of the close callback skips no cleanup step, but the
  cleanup steps are a plain sequence: the handle is disposed exactly when the stop of the
  watchers, the enumeration of the mounts and every unmount returned, whatever the callback
  did; and a run that ends without an error has disposed the handle.
\<close>
theorem dispose_iff_cleanup_succeeds:
  "(Dispose s \<in> set (snd (onClose eng opts s []))
      \<longleftrightarrow> unwatch_outcome eng s = Inr ()
          \<and> (\<exists>ms. getMounts_outcome eng s [] = Inr ms
                \<and> (\<forall>m\<in>set ms. unmount_outcome eng s (base m) True = Inr ())))
   \<and> (fst (onClose eng opts s []) = Inr ()
      \<longrightarrow> Dispose s \<in> set (snd (onClose eng opts s [])))"
proof -
  let ?ok = "unwatch_outcome eng s = Inr ()
          \<and> (\<exists>ms. getMounts_outcome eng s [] = Inr ms
                \<and> (\<forall>m\<in>set ms. unmount_outcome eng s (base m) True = Inr ()))"
  have yes: "Dispose s \<in> set (snd (onClose eng opts s []))" if ?ok
  proof -
    from that obtain ms where "unwatch_outcome eng s = Inr ()" "getMounts_outcome eng s [] = Inr ms"
      "\<forall>m\<in>set ms. unmount_outcome eng s (base m) True = Inr ()" by blast
    from onClose_log_when_cleanup_ok[OF this, of opts "[]"] show ?thesis
      by (simp add: shutdown_steps_def)
  qed
  have no: "Dispose s \<notin> set (snd (onClose eng opts s [])) \<and> fst (onClose eng opts s []) \<noteq> Inr ()"
    if "\<not> ?ok"
  proof (cases "unwatch_outcome eng s")
    case (Inl e)
    from onClose_unwatch_fails[OF this, of opts "[]"] show ?thesis
      by (simp split: option.splits)
  next
    case uw: (Inr u)
    show ?thesis
    proof (cases "getMounts_outcome eng s []")
      case (Inl e)
      from onClose_getMounts_fails[OF _ this, of opts "[]"] uw show ?thesis
        by (simp split: option.splits)
    next
      case (Inr ms)
      with that uw have "\<not> (\<forall>m\<in>set ms. unmount_outcome eng s (base m) True = Inr ())" by simp
      from onClose_unmount_fails[OF _ Inr this, of opts "[]"] uw
      obtain e k where "onClose eng opts s []
        = (Inl e, (case close opts of None \<Rightarrow> [] | Some _ \<Rightarrow> [CloseCallback])
                 @ [Unwatch s, GetMounts s []]
                 @ map (\<lambda>m. Unmount s (base m) True) (take k ms))" by auto
      then show ?thesis by (auto split: option.splits)
    qed
  qed
  from yes no show ?thesis by blast
qed

text \<open>
  A throwing callback does not prevent the disposal; a failing unmount does, even when the
  callback returned.
\<close>
theorem dispose_iff_cleanup_succeeds_witness:
  "Dispose example_storage \<in> set (snd (onClose healthy_engine options_close_throws example_storage []))
   \<and> Dispose example_storage \<notin> set (snd (onClose unmount_failing_engine options_close_ok example_storage []))"
  using dispose_iff_cleanup_succeeds[of example_storage healthy_engine options_close_throws]
    dispose_iff_cleanup_succeeds[of example_storage unmount_failing_engine options_close_ok]
  by (simp add: example_defs)

text \<open>
  Claim C3 as stated fails: when the stop of the watchers throws, the hook ends there with
  that error; no mount is enumerated or unmounted and the handle is not disposed.
\<close>
theorem unwatch_failure_skips_dispose:
  "onClose unwatch_failing_engine options_without_close example_storage []
     = (Inl (Error ''unwatch failed''), [Unwatch example_storage])
   \<and> Dispose example_storage \<notin> set (snd (onClose unwatch_failing_engine options_without_close example_storage []))"
  by (simp add: example_defs onClose_def action_defs engine_defs call_close_def)

text \<open>
  Claim C9. When the options hold no close callback, the hook makes no callback call; it
  stops the watchers, unmounts every mount at the root and disposes the handle, and, these
  calls returning, it ends without an error.
\<close>
theorem onClose_without_callback:
  assumes "close opts = None"
    and "unwatch_outcome eng s = Inr ()"
    and "getMounts_outcome eng s [] = Inr ms"
    and "\<forall>m\<in>set ms. unmount_outcome eng s (base m) True = Inr ()"
    and "dispose_outcome eng s = Inr ()"
  shows "onClose eng opts s log
       = (Inr (), log @ Unwatch s # GetMounts s []
                   # map (\<lambda>m. Unmount s (base m) True) ms @ [Dispose s])"
  using onClose_log_when_cleanup_ok[OF assms(2-4), of opts log]
    onClose_result_when_cleanup_ok[OF assms(2-5), of opts log] assms(1)
  by (simp add: prod_eq_iff shutdown_steps_def)

text \<open>No callback, a healthy engine.\<close>
theorem onClose_without_callback_witness:
  "onClose healthy_engine options_without_close example_storage []
     = (Inr (),
        [Unwatch example_storage, GetMounts example_storage [],
         Unmount example_storage [] True, Unmount example_storage ''cache:'' True,
         Dispose example_storage])"
  using onClose_without_callback[of options_without_close healthy_engine example_storage example_mounts "[]"]
  by (simp add: example_defs)

text \<open>
  Claim C10. When \<^verbatim>\<open>createStorage\<close> throws, the plugin function ends with that
  error and the server is as it was: no decoration and no hook has been added.
\<close>
theorem plugin_atomic_on_createStorage_error:
  "createStorage eng opts = Inl e \<Longrightarrow> plugin eng f opts = (Inl e, f)"
  by (simp add: plugin_def)

text \<open>An engine that refuses the configuration, on a fresh server.\<close>
theorem plugin_atomic_on_createStorage_error_witness:
  "plugin refusing_engine (empty_fastify :: string fastify) options_close_ok
     = (Inl (Error ''invalid driver''), empty_fastify)"
  using plugin_atomic_on_createStorage_error[of refusing_engine options_close_ok "Error ''invalid driver''" "empty_fastify :: string fastify"]
  by (simp add: example_defs createStorage_def)

section \<open>Keys: prefixed views, snapshots and the two decoration surfaces\<close>

lemma getItem_setItem:
  "getItem s' k' (setItem s k v w)
     = (if store_id s' = store_id s \<and> key_prefix s' @ k' = key_prefix s @ k then Some v
        else getItem s' k' w)"
  by (simp add: getItem_def setItem_def update_conv')

lemma getItem_setItem_same: "getItem s k (setItem s k v w) = Some v"
  by (simp add: getItem_setItem)

lemma getItem_prefixStorage: "getItem (prefixStorage s p) k w = getItem s (p @ k) w"
  by (simp add: getItem_def prefixStorage_def)

lemma setItem_prefixStorage: "setItem (prefixStorage s p) k v w = setItem s (p @ k) v w"
  by (simp add: setItem_def prefixStorage_def)

text \<open>
  Claim C5. For every prefix \<open>P\<close>, key \<open>K\<close> and value \<open>V\<close>: a write of \<open>V\<close> at
  \<open>K\<close> through the view that \<^verbatim>\<open>storagelyPrefix(P)\<close> returns is read back from the
  raw handle at the key \<open>P @ K\<close>, and a write of \<open>V\<close> at \<open>P @ K\<close> through the raw handle is
  read back at \<open>K\<close> through the view.
\<close>
theorem prefixed_view_addresses_prefixed_key:
  "getItem s (P @ K) (setItem (createPrefixedStoragely s P) K V w) = Some V
   \<and> getItem (createPrefixedStoragely s P) K (setItem s (P @ K) V w) = Some V"
  by (simp add: createPrefixedStoragely_def getItem_prefixStorage setItem_prefixStorage
      getItem_setItem_same)

text \<open>
  Claim C8. The factory is a function of the handle and the prefix alone: it neither takes
  nor returns the contents of a store. Two calls with the same prefix give views that work on
  the same keys of the underlying handle (a write through the first is read through the
  second, and both address the key \<open>P @ K\<close>), and the view for the empty prefix reads and
  writes every key exactly as the raw handle does.
\<close>
theorem prefix_factory_views:
  "getItem (createPrefixedStoragely s P) K (setItem (createPrefixedStoragely s P) K V w) = Some V
   \<and> getItem (createPrefixedStoragely s P) K w = getItem s (P @ K) w
   \<and> setItem (createPrefixedStoragely s P) K V w = setItem s (P @ K) V w
   \<and> getItem (createPrefixedStoragely s []) K w = getItem s K w
   \<and> setItem (createPrefixedStoragely s []) K V w = setItem s K V w"
  by (simp add: createPrefixedStoragely_def getItem_prefixStorage setItem_prefixStorage
      getItem_setItem_same)

lemma restore_frame:
  "\<forall>k\<in>fst ` set snap. k' \<noteq> b @ k \<Longrightarrow>
   getItem s k' (fold (\<lambda>(k, v). setItem s (b @ k) v) snap w) = getItem s k' w"
  by (induction snap arbitrary: w) (auto simp: getItem_setItem)

lemma restore_written:
  "k \<in> fst ` set snap \<Longrightarrow> \<forall>v'. (k, v') \<in> set snap \<longrightarrow> v' = v \<Longrightarrow>
   getItem s (b @ k) (fold (\<lambda>(k, v). setItem s (b @ k) v) snap w) = Some v"
proof (induction snap arbitrary: w)
  case Nil
  then show ?case by simp
next
  case (Cons x snap)
  obtain k0 v0 where x: "x = (k0, v0)" by (cases x)
  show ?case
  proof (cases "k \<in> fst ` set snap")
    case True
    with Cons show ?thesis by (simp add: x)
  next
    case False
    with Cons.prems x have "k0 = k" "v0 = v" by auto
    moreover from False have "\<forall>j\<in>fst ` set snap. b @ k \<noteq> b @ j" by auto
    ultimately show ?thesis
      using restore_frame[of snap "b @ k" b s "setItem s (b @ k) v w"]
      by (simp add: x getItem_setItem_same)
  qed
qed

lemma set_getKeys:
  "set (getKeys s b w) = {drop (length (key_prefix s)) kk | kk.
      kk \<in> fst ` set (w (store_id s)) \<and> prefix (key_prefix s @ b) kk}"
  by (auto simp: getKeys_def)

lemma set_snapshot:
  "set (snapshot s b w) = {(drop (length b) k, v) | k v. k \<in> set (getKeys s b w) \<and> getItem s k w = Some v}"
proof -
  have "set (List.map_filter g xs) = {y. \<exists>x\<in>set xs. g x = Some y}" for g :: "string \<Rightarrow> (string \<times> 'a) option" and xs
    by (induction xs) (auto split: option.splits)
  then show ?thesis by (auto simp: snapshot_def)
qed

lemma snapshot_holds_entry:
  assumes "getItem s (b @ k) w = Some v"
  shows "(k, v) \<in> set (snapshot s b w)"
proof -
  from assms have "key_prefix s @ b @ k \<in> fst ` set (w (store_id s))"
    by (auto simp: getItem_def dest!: map_of_SomeD intro: rev_image_eqI)
  then have "b @ k \<in> set (getKeys s b w)"
    unfolding set_getKeys by (auto intro!: exI[of _ "key_prefix s @ b @ k"])
  with assms show ?thesis unfolding set_snapshot by force
qed

lemma snapshot_entry_is_current:
  assumes "(k, v) \<in> set (snapshot s b w)"
  shows "getItem s (b @ k) w = Some v"
proof -
  from assms obtain j where j: "j \<in> set (getKeys s b w)" "k = drop (length b) j" "getItem s j w = Some v"
    unfolding set_snapshot by auto
  from j(1) obtain kk where kk: "j = drop (length (key_prefix s)) kk" "prefix (key_prefix s @ b) kk"
    unfolding set_getKeys by auto
  from kk(2) obtain r where "kk = key_prefix s @ b @ r" by (auto simp: prefix_def)
  with kk(1) j(2) have "j = b @ k" by simp
  with j(3) show ?thesis by simp
qed

text \<open>
  Claim C6. For every base \<open>B\<close>, every key \<open>B @ K\<close> under it with a value \<open>v1\<close>, and
  every value \<open>v2\<close>: after a snapshot of \<open>B\<close> through \<^verbatim>\<open>storagelySnapshot(B)\<close>, a
  write of \<open>v2\<close> to the key and a restore of the snapshot under \<open>B\<close> through
  \<^verbatim>\<open>storagelySnapshot.restore\<close>, the key reads \<open>v1\<close> again. For the root base the
  base of the restore may be left out.
\<close>
theorem snapshot_restore_round_trip:
  assumes "getItem s (B @ K) w = Some v1"
  shows "getItem s (B @ K)
           (restore (createSnapshotedStoragely s) (invoke (createSnapshotedStoragely s) B w) (Some B)
              (setItem s (B @ K) v2 w)) = Some v1
       \<and> (B = [] \<longrightarrow> getItem s K
           (restore (createSnapshotedStoragely s) (invoke (createSnapshotedStoragely s) [] w) None
              (setItem s K v2 w)) = Some v1)"
proof -
  have 1: "K \<in> fst ` set (snapshot s B w)"
    using snapshot_holds_entry[OF assms] by (auto intro: rev_image_eqI)
  have 2: "\<forall>v'. (K, v') \<in> set (snapshot s B w) \<longrightarrow> v' = v1"
    using snapshot_entry_is_current[of K _ s B w] assms by auto
  from restore_written[OF 1 2, of s B "setItem s (B @ K) v2 w"]
  have 3: "getItem s (B @ K) (restoreSnapshot s (snapshot s B w) (Some B) (setItem s (B @ K) v2 w)) = Some v1"
    by (simp add: restoreSnapshot_def)
  then have "B = [] \<Longrightarrow> getItem s K (restoreSnapshot s (snapshot s [] w) None (setItem s K v2 w)) = Some v1"
    by (simp add: restoreSnapshot_def)
  with 3 show ?thesis by (simp add: createSnapshotedStoragely_def)
qed

text \<open>
  The specification's scenario: \<^verbatim>\<open>foo = bar\<close>, snapshot of the root, \<^verbatim>\<open>foo = baz\<close>,
  restore without a base.
\<close>
theorem snapshot_restore_round_trip_witness:
  "getItem example_storage ''foo''
     (restore (createSnapshotedStoragely example_storage)
        (invoke (createSnapshotedStoragely example_storage) [] example_world) None
        (setItem example_storage ''foo'' ''baz'' example_world)) = Some ''bar''"
  using snapshot_restore_round_trip[of example_storage "[]" "''foo''" example_world "''bar''" "''baz''"]
  by (simp add: example_world_def example_storage_def getItem_def)

text \<open>
  Claim C7. A restore of a snapshot under a base writes the keys of the snapshot under that
  base and nothing else: every key that is not the base followed by a key of the snapshot
  reads as before (so no key is deleted), and every entry of the snapshot is read back under
  the base.
\<close>
theorem restore_writes_only_snapshot_keys:
  "(k' \<notin> (\<lambda>k. (case b of None \<Rightarrow> [] | Some b' \<Rightarrow> b') @ k) ` fst ` set snap
      \<longrightarrow> getItem s k' (restore (createSnapshotedStoragely s) snap b w) = getItem s k' w)
   \<and> (distinct (map fst snap) \<and> (k, v) \<in> set snap
      \<longrightarrow> getItem s ((case b of None \<Rightarrow> [] | Some b' \<Rightarrow> b') @ k)
            (restore (createSnapshotedStoragely s) snap b w) = Some v)"
proof (intro conjI impI)
  assume "k' \<notin> (\<lambda>k. (case b of None \<Rightarrow> [] | Some b' \<Rightarrow> b') @ k) ` fst ` set snap"
  then have "\<forall>k\<in>fst ` set snap. k' \<noteq> (case b of None \<Rightarrow> [] | Some b' \<Rightarrow> b') @ k" by blast
  from restore_frame[OF this]
  show "getItem s k' (restore (createSnapshotedStoragely s) snap b w) = getItem s k' w"
    by (simp add: createSnapshotedStoragely_def restoreSnapshot_def)
next
  assume a: "distinct (map fst snap) \<and> (k, v) \<in> set snap"
  then have 1: "k \<in> fst ` set snap" by (auto intro: rev_image_eqI)
  from a have 2: "\<forall>v'. (k, v') \<in> set snap \<longrightarrow> v' = v" by (auto dest: eq_key_imp_eq_value)
  from restore_written[OF 1 2]
  show "getItem s ((case b of None \<Rightarrow> [] | Some b' \<Rightarrow> b') @ k)
            (restore (createSnapshotedStoragely s) snap b w) = Some v"
    by (simp add: createSnapshotedStoragely_def restoreSnapshot_def)
qed


text \<open>
  A restore of the one-entry snapshot \<^verbatim>\<open>baz = qux\<close> at the root of a store that
  holds \<^verbatim>\<open>foo = bar\<close>.
\<close>
theorem restore_writes_only_snapshot_keys_witness:
  "getItem example_storage ''foo''
     (restore (createSnapshotedStoragely example_storage) [(''baz'', ''qux'')] None example_world)
     = Some ''bar''
   \<and> getItem example_storage ''baz''
     (restore (createSnapshotedStoragely example_storage) [(''baz'', ''qux'')] None example_world)
     = Some ''qux''"
  using restore_writes_only_snapshot_keys[of "''foo''" None "[(''baz'', ''qux'')]" example_storage example_world "''baz''" "''qux''"]
  by (simp add: example_world_def example_storage_def getItem_def)

lemma plugin_registered:
  assumes "createStorage eng opts = Inr s"
  shows "decorators (snd (plugin eng f opts))
           = (decorators f)(''storagely'' \<mapsto> Getter (\<lambda>_. StorageValue s),
                ''storagelyPrefix'' \<mapsto> Plain (PrefixFactory (createPrefixedStoragely s)),
                ''storagelySnapshot'' \<mapsto> Plain (SnapshotTool (createSnapshotedStoragely s)))"
    and "request_decorators (snd (plugin eng f opts))
           = (request_decorators f)(''storagely'' \<mapsto> Getter (\<lambda>_. StorageValue s),
                ''storagelyPrefix'' \<mapsto> Plain (PrefixFactory (createPrefixedStoragely s)),
                ''storagelySnapshot'' \<mapsto> Plain (SnapshotTool (createSnapshotedStoragely s)))"
    and "fst (plugin eng f opts) = Inr ()"
  using assms by (simp_all add: plugin_def Let_def decorate_def decorateRequest_def addHook_def)

text \<open>
  Claim C4. After a registration that completed, the three names resolve on the instance to
  the handle that \<^verbatim>\<open>createStorage\<close> returned and to the two factories built from
  it; on every request each name resolves to the very value it resolves to on the instance;
  and a write through the handle of either surface is read through the handle of the other.
\<close>
theorem request_decorations_are_instance_decorations:
  assumes "plugin eng f opts = (Inr (), f')"
  shows "\<exists>s. createStorage eng opts = Inr s
     \<and> instance_get f' ''storagely'' = Some (StorageValue s)
     \<and> instance_get f' ''storagelyPrefix'' = Some (PrefixFactory (createPrefixedStoragely s))
     \<and> instance_get f' ''storagelySnapshot'' = Some (SnapshotTool (createSnapshotedStoragely s))
     \<and> (\<forall>n. \<forall>name\<in>{''storagely'', ''storagelyPrefix'', ''storagelySnapshot''}.
           request_get (new_request f' n) name = instance_get f' name)
     \<and> (\<forall>n si sr k v w.
           instance_get f' ''storagely'' = Some (StorageValue si)
           \<and> request_get (new_request f' n) ''storagely'' = Some (StorageValue sr)
           \<longrightarrow> getItem sr k (setItem si k v w) = Some v
             \<and> getItem si k (setItem sr k v w) = Some v)"
proof -
  from assms obtain s where s: "createStorage eng opts = Inr s"
    by (cases "createStorage eng opts") (auto simp: plugin_def)
  from assms have f': "f' = snd (plugin eng f opts)" by simp
  note reg = plugin_registered(1,2)[OF s, of f, folded f']
  have i: "instance_get f' ''storagely'' = Some (StorageValue s)"
    "instance_get f' ''storagelyPrefix'' = Some (PrefixFactory (createPrefixedStoragely s))"
    "instance_get f' ''storagelySnapshot'' = Some (SnapshotTool (createSnapshotedStoragely s))"
    by (simp_all add: instance_get_def reg)
  have r: "request_get (new_request f' n) ''storagely'' = Some (StorageValue s)"
    "request_get (new_request f' n) ''storagelyPrefix'' = Some (PrefixFactory (createPrefixedStoragely s))"
    "request_get (new_request f' n) ''storagelySnapshot'' = Some (SnapshotTool (createSnapshotedStoragely s))"
    for n
    by (simp_all add: request_get_def new_request_def reg)
  show ?thesis
    by (rule exI[of _ s]) (simp add: s i r getItem_setItem_same)
qed

text \<open>Registration on a fresh server, and request number 7.\<close>
theorem request_decorations_are_instance_decorations_witness:
  "instance_get (snd (plugin healthy_engine (empty_fastify :: string fastify) options_close_ok)) ''storagely''
     = Some (StorageValue example_storage)
   \<and> request_get (new_request (snd (plugin healthy_engine (empty_fastify :: string fastify) options_close_ok)) 7)
       ''storagely'' = Some (StorageValue example_storage)
   \<and> getItem example_storage ''foo'' (setItem example_storage ''foo'' ''baz'' example_world) = Some ''baz''"
proof -
  let ?f = "snd (plugin healthy_engine (empty_fastify :: string fastify) options_close_ok)"
  have h: "plugin healthy_engine (empty_fastify :: string fastify) options_close_ok = (Inr (), ?f)"
    by (simp add: plugin_def createStorage_def healthy_engine_def Let_def)
  from request_decorations_are_instance_decorations[OF h] obtain s where
    all: "createStorage healthy_engine options_close_ok = Inr s
     \<and> instance_get ?f ''storagely'' = Some (StorageValue s)
     \<and> instance_get ?f ''storagelyPrefix'' = Some (PrefixFactory (createPrefixedStoragely s))
     \<and> instance_get ?f ''storagelySnapshot'' = Some (SnapshotTool (createSnapshotedStoragely s))
     \<and> (\<forall>n. \<forall>name\<in>{''storagely'', ''storagelyPrefix'', ''storagelySnapshot''}.
           request_get (new_request ?f n) name = instance_get ?f name)
     \<and> (\<forall>n si sr k v (w :: string world).
           instance_get ?f ''storagely'' = Some (StorageValue si)
           \<and> request_get (new_request ?f n) ''storagely'' = Some (StorageValue sr)
           \<longrightarrow> getItem sr k (setItem si k v w) = Some v
             \<and> getItem si k (setItem sr k v w) = Some v)" ..
  from all have s1: "createStorage healthy_engine options_close_ok = Inr s"
    and s2: "instance_get ?f ''storagely'' = Some (StorageValue s)" by (rule conjunct1, simp)
  from all have rq: "\<forall>n. \<forall>name\<in>{''storagely'', ''storagelyPrefix'', ''storagelySnapshot''}.
           request_get (new_request ?f n) name = instance_get ?f name"
    by (elim conjE)
  from all have wr: "\<forall>n si sr k v (w :: string world).
           instance_get ?f ''storagely'' = Some (StorageValue si)
           \<and> request_get (new_request ?f n) ''storagely'' = Some (StorageValue sr)
           \<longrightarrow> getItem sr k (setItem si k v w) = Some v
             \<and> getItem si k (setItem sr k v w) = Some v"
    by (elim conjE)
  from s1 have e: "s = example_storage"
    by (simp add: createStorage_def healthy_engine_def)
  from rq have r: "request_get (new_request ?f 7) ''storagely'' = instance_get ?f ''storagely''"
    by simp
  from wr[rule_format, of s 7 s "''foo''" "''baz''" example_world] s2 r
  have "getItem s ''foo'' (setItem s ''foo'' ''baz'' example_world) = Some ''baz''"
    by simp
  with s2 r e show ?thesis by simp
qed

end
